theory Spec2Isabelle
  imports Main "HOL-Library.AList" "HOL-Library.Sublist"
begin

section \<open>Python strings\<close>

text \<open>
  The analysed module is \<^verbatim>\<open>tests/test_on_load_globals.py\<close>.  Python \<^verbatim>\<open>str\<close> values are
  modelled as \<^typ>\<open>string\<close>; the character classes below are the ASCII part of Python's
  Unicode-aware \<^verbatim>\<open>\w\<close> and \<^verbatim>\<open>\s\<close>, so the model speaks about ASCII sources.
\<close>

datatype py_error = IndexError

text \<open>\<^verbatim>\<open>s.find(sub)\<close>: index of the first occurrence, \<^const>\<open>None\<close> for Python's \<^verbatim>\<open>-1\<close>.\<close>

fun str_find_from :: "string \<Rightarrow> string \<Rightarrow> nat \<Rightarrow> nat option" where
  "str_find_from sub [] i = (if sub = [] then Some i else None)"
| "str_find_from sub (c # cs) i =
     (if prefix sub (c # cs) then Some i else str_find_from sub cs (Suc i))"

definition str_find :: "string \<Rightarrow> string \<Rightarrow> nat option" where
  "str_find sub s = str_find_from sub s 0"

text \<open>\<^verbatim>\<open>sub in s\<close>.\<close>

definition str_contains :: "string \<Rightarrow> string \<Rightarrow> bool" where
  "str_contains sub s = (str_find sub s \<noteq> None)"

text \<open>\<^verbatim>\<open>s.split('\n')\<close> and \<^verbatim>\<open>'\n'.join(ls)\<close>.\<close>

fun split_nl :: "string \<Rightarrow> string list" where
  "split_nl [] = [[]]"
| "split_nl (c # cs) =
     (if c = CHR 0x0A then [] # split_nl cs
      else (case split_nl cs of [] \<Rightarrow> [[c]] | l # ls \<Rightarrow> (c # l) # ls))"

fun join_nl :: "string list \<Rightarrow> string" where
  "join_nl [] = []"
| "join_nl [l] = l"
| "join_nl (l # ls) = l @ CHR 0x0A # join_nl ls"

section \<open>The fragment of Python's \<^verbatim>\<open>re\<close> that the module uses\<close>

text \<open>
  Character classes: a literal character, \<^verbatim>\<open>\w\<close>, \<^verbatim>\<open>\s\<close>, and \<^verbatim>\<open>.\<close> under
  \<^verbatim>\<open>re.DOTALL\<close>.
\<close>

datatype cclass = Lit char | Word | Space | AnyChar

definition is_word_char :: "char \<Rightarrow> bool" where
  "is_word_char c =
     (let n = (of_char c :: nat) in
      (48 \<le> n \<and> n \<le> 57) \<or> (65 \<le> n \<and> n \<le> 90) \<or> n = 95 \<or> (97 \<le> n \<and> n \<le> 122))"

definition is_space_char :: "char \<Rightarrow> bool" where
  "is_space_char c =
     (let n = (of_char c :: nat) in (9 \<le> n \<and> n \<le> 13) \<or> (28 \<le> n \<and> n \<le> 32))"

fun cmatch :: "cclass \<Rightarrow> char \<Rightarrow> bool" where
  "cmatch (Lit a) c = (c = a)"
| "cmatch Word c = is_word_char c"
| "cmatch Space c = is_space_char c"
| "cmatch AnyChar c = True"

text \<open>
  Patterns.  Repetition is only ever applied to a character class in the module's
  patterns (\<^verbatim>\<open>\s*\<close>, \<^verbatim>\<open>\s+\<close>, \<^verbatim>\<open>\w+\<close>, \<^verbatim>\<open>.*?\<close>), so the repetition
  constructors take a class.  \<^verbatim>\<open>Grp n r\<close> is the capturing group number \<open>n\<close>,
  \<^verbatim>\<open>Bnd\<close> is \<^verbatim>\<open>\b\<close>.
\<close>

datatype regex =
    Eps
  | Atom cclass
  | Bnd
  | Seq regex regex
  | Alt regex regex
  | Opt regex
  | Star cclass
  | Plus cclass
  | LazyStar cclass
  | Grp nat regex

text \<open>A literal string, as \<^verbatim>\<open>re.escape\<close> produces it.\<close>

fun lits :: "string \<Rightarrow> regex" where
  "lits [] = Eps"
| "lits (c # cs) = Seq (Atom (Lit c)) (lits cs)"

text \<open>
  A matcher state is the current position and the captures made so far (group number,
  start, end; the latest first).  \<open>rmatch r s st\<close> lists the states in which a match of
  \<open>r\<close> started in state \<open>st\<close> can end, in the order in which a backtracking matcher
  tries them: the head is the match Python reports.
\<close>

type_synonym mstate = "nat \<times> (nat \<times> nat \<times> nat) list"

definition run_len :: "cclass \<Rightarrow> string \<Rightarrow> nat \<Rightarrow> nat" where
  "run_len k s i = length (takeWhile (cmatch k) (drop i s))"

definition word_at :: "string \<Rightarrow> nat \<Rightarrow> bool" where
  "word_at s i = (i < length s \<and> is_word_char (s ! i))"

definition at_boundary :: "string \<Rightarrow> nat \<Rightarrow> bool" where
  "at_boundary s i = ((0 < i \<and> word_at s (i - 1)) \<noteq> word_at s i)"

primrec rmatch :: "regex \<Rightarrow> string \<Rightarrow> mstate \<Rightarrow> mstate list" where
  "rmatch Eps s st = [st]"
| "rmatch (Atom k) s st =
     (if fst st < length s \<and> cmatch k (s ! fst st) then [(Suc (fst st), snd st)] else [])"
| "rmatch Bnd s st = (if at_boundary s (fst st) then [st] else [])"
| "rmatch (Seq a b) s st = concat (map (rmatch b s) (rmatch a s st))"
| "rmatch (Alt a b) s st = rmatch a s st @ rmatch b s st"
| "rmatch (Opt a) s st = rmatch a s st @ [st]"
| "rmatch (Star k) s st =
     map (\<lambda>n. (fst st + n, snd st)) (rev [0..<Suc (run_len k s (fst st))])"
| "rmatch (Plus k) s st =
     map (\<lambda>n. (fst st + n, snd st)) (rev [1..<Suc (run_len k s (fst st))])"
| "rmatch (LazyStar k) s st =
     map (\<lambda>n. (fst st + n, snd st)) [0..<Suc (run_len k s (fst st))]"
| "rmatch (Grp n a) s st =
     map (\<lambda>st'. (fst st', (n, fst st, fst st') # snd st')) (rmatch a s st)"

text \<open>A match object: \<^verbatim>\<open>m.start()\<close>, \<^verbatim>\<open>m.end()\<close> and the captures.\<close>

record re_match =
  m_start :: nat
  m_end :: nat
  m_groups :: "(nat \<times> nat \<times> nat) list"

text \<open>\<^verbatim>\<open>m.group(n)\<close> on the subject string \<open>s\<close>; \<^const>\<open>None\<close> when the group took no part.\<close>

definition group :: "string \<Rightarrow> re_match \<Rightarrow> nat \<Rightarrow> string option" where
  "group s m n =
     (case map_of (m_groups m) n of
        None \<Rightarrow> None
      | Some (a, b) \<Rightarrow> Some (take (b - a) (drop a s)))"

text \<open>\<^verbatim>\<open>re.search\<close>, from a start position: the leftmost position with a match.\<close>

function re_search_from :: "regex \<Rightarrow> string \<Rightarrow> nat \<Rightarrow> re_match option" where
  "re_search_from r s i =
     (if length s < i then None
      else (case rmatch r s (i, []) of
              [] \<Rightarrow> re_search_from r s (Suc i)
            | st # _ \<Rightarrow> Some \<lparr>m_start = i, m_end = fst st, m_groups = snd st\<rparr>))"
  by pat_completeness auto
termination
  by (relation "measure (\<lambda>(r, s, i). Suc (length s) - i)") auto

definition re_search :: "regex \<Rightarrow> string \<Rightarrow> re_match option" where
  "re_search r s = re_search_from r s 0"

declare re_search_from.simps [simp del]

lemma re_search_from_bounds:
  "re_search_from r s i = Some m \<Longrightarrow> i \<le> m_start m \<and> m_start m \<le> length s"
proof (induction r s i rule: re_search_from.induct)
  case (1 r s i)
  note unfold = re_search_from.simps [of r s i]
  show ?case
  proof (cases "length s < i")
    case True
    with "1.prems" unfold show ?thesis by simp
  next
    case False
    note in_range = this
    show ?thesis
    proof (cases "rmatch r s (i, [])")
      case Nil
      with in_range "1.prems" unfold have "re_search_from r s (Suc i) = Some m" by simp
      with "1.IH" in_range Nil have "Suc i \<le> m_start m \<and> m_start m \<le> length s" by simp
      then show ?thesis by simp
    next
      case (Cons st sts)
      with in_range "1.prems" unfold show ?thesis by auto
    qed
  qed
qed

text \<open>
  \<^verbatim>\<open>re.finditer\<close>: the non-overlapping matches from left to right.  After a match the
  scan resumes at its end.  No pattern of the module matches the empty string (each
  holds a literal character), so the step past an empty match is never taken.
\<close>

function re_finditer_from :: "regex \<Rightarrow> string \<Rightarrow> nat \<Rightarrow> re_match list" where
  "re_finditer_from r s i =
     (case re_search_from r s i of
        None \<Rightarrow> []
      | Some m \<Rightarrow> m # re_finditer_from r s (max (m_end m) (Suc (m_start m))))"
  by pat_completeness auto
termination
proof (relation "measure (\<lambda>(r, s, i). Suc (length s) - i)")
  show "wf (measure (\<lambda>(r, s, i). Suc (length s) - i))" by simp
next
  fix r s i m
  assume "re_search_from r s i = Some m"
  then have "i \<le> m_start m \<and> m_start m \<le> length s" by (rule re_search_from_bounds)
  then show "((r, s, max (m_end m) (Suc (m_start m))), (r, s, i))
      \<in> measure (\<lambda>(r, s, i). Suc (length s) - i)"
    by auto
qed

declare re_finditer_from.simps [simp del]

definition re_finditer :: "regex \<Rightarrow> string \<Rightarrow> re_match list" where
  "re_finditer r s = re_finditer_from r s 0"

text \<open>\<^verbatim>\<open>len(re.findall(r, s))\<close>.\<close>

definition re_count :: "regex \<Rightarrow> string \<Rightarrow> nat" where
  "re_count r s = length (re_finditer r s)"

section \<open>The patterns of the module\<close>

definition ch :: "char \<Rightarrow> regex" where
  "ch c = Atom (Lit c)"

text \<open>Concatenation of a sequence of patterns.\<close>

fun seqs :: "regex list \<Rightarrow> regex" where
  "seqs [] = Eps"
| "seqs [r] = r"
| "seqs (r # rs) = Seq r (seqs rs)"

text \<open>\<^verbatim>\<open>\w+(?:\.\w+)?\<close>: a plain or dotted name.\<close>

definition name_re :: regex where
  "name_re = Seq (Plus Word) (Opt (Seq (ch (CHR ''.'')) (Plus Word)))"

text \<open>
  \<^verbatim>\<open>(?:local\s+)?(?:function\s+(\w+(?:\.\w+)?)|(\w+(?:\.\w+)?)\s*=\s*function)\s*\(\<close>
\<close>

definition def_pattern :: regex where
  "def_pattern =
     seqs [Opt (Seq (lits ''local'') (Plus Space)),
           Alt (seqs [lits ''function'', Plus Space, Grp 1 name_re])
               (seqs [Grp 2 name_re, Star Space, ch (CHR ''=''), Star Space, lits ''function'']),
           Star Space, ch (CHR 0x28)]"

text \<open>
  \<^verbatim>\<open>(?:local\s+)?(?:function\s+NAME|NAME\s*=\s*function)\s*\(\<close> with \<^verbatim>\<open>NAME\<close> the
  escaped function name.
\<close>

definition func_pattern :: "string \<Rightarrow> regex" where
  "func_pattern function_name =
     seqs [Opt (Seq (lits ''local'') (Plus Space)),
           Alt (seqs [lits ''function'', Plus Space, lits function_name])
               (seqs [lits function_name, Star Space, ch (CHR ''=''), Star Space,
                      lits ''function'']),
           Star Space, ch (CHR 0x28)]"

text \<open>\<^verbatim>\<open>script\.on_load\s*\(\s*function\s*\(\s*\)(.*?)end\s*\)\<close>, with \<^verbatim>\<open>re.DOTALL\<close>.\<close>

definition on_load_pattern :: regex where
  "on_load_pattern =
     seqs [lits ''script.on_load'', Star Space, ch (CHR 0x28), Star Space,
           lits ''function'', Star Space, ch (CHR 0x28), Star Space, ch (CHR 0x29),
           Grp 1 (LazyStar AnyChar), lits ''end'', Star Space, ch (CHR 0x29)]"

text \<open>\<^verbatim>\<open>(\w+(?:\.\w+)?)\s*\(\<close>\<close>

definition call_pattern :: regex where
  "call_pattern = seqs [Grp 1 name_re, Star Space, ch (CHR 0x28)]"

text \<open>\<^verbatim>\<open>\bfunction\b\<close> and \<^verbatim>\<open>\bend\b\<close>.\<close>

definition kw_function :: regex where
  "kw_function = seqs [Bnd, lits ''function'', Bnd]"

definition kw_end :: regex where
  "kw_end = seqs [Bnd, lits ''end'', Bnd]"

text \<open>\<^verbatim>\<open>--\[\[\<close> and \<^verbatim>\<open>\]\]\<close>.\<close>

definition ml_open :: regex where
  "ml_open = lits ''--[[''"

definition ml_close :: regex where
  "ml_close = lits '']]''"

text \<open>\<^verbatim>\<open>\b{global_name}\s*\.\<close>\<close>

definition global_pattern :: "string \<Rightarrow> regex" where
  "global_pattern global_name = seqs [Bnd, lits global_name, Star Space, ch (CHR ''.'')]"

definition FORBIDDEN_ON_LOAD_GLOBALS :: "string list" where
  "FORBIDDEN_ON_LOAD_GLOBALS = [''game'', ''rendering'']"

section \<open>\<^verbatim>\<open>LuaParser\<close>\<close>

record LuaParser =
  content :: string
  lines :: "string list"

definition LuaParser_init :: "string \<Rightarrow> LuaParser" where
  "LuaParser_init txt = \<lparr>content = txt, lines = split_nl txt\<rparr>"

subsection \<open>\<^verbatim>\<open>_is_in_string\<close>\<close>

text \<open>
  One iteration of \<^verbatim>\<open>for i in range(min(pos, len(line)))\<close>; the state is
  \<^verbatim>\<open>(in_single, in_double)\<close>.
\<close>

definition quote_step :: "string \<Rightarrow> bool \<times> bool \<Rightarrow> nat \<Rightarrow> bool \<times> bool" where
  "quote_step line st i =
     (let in_single = fst st; in_double = snd st; c = line ! i in
      if c = CHR 0x22 \<and> \<not> in_single \<and> (i = 0 \<or> line ! (i - 1) \<noteq> CHR 0x5C)
        then (in_single, \<not> in_double)
      else if c = CHR 0x27 \<and> \<not> in_double \<and> (i = 0 \<or> line ! (i - 1) \<noteq> CHR 0x5C)
        then (\<not> in_single, in_double)
      else (in_single, in_double))"

definition quote_state :: "string \<Rightarrow> nat \<Rightarrow> bool \<times> bool" where
  "quote_state line pos = foldl (quote_step line) (False, False) [0..<min pos (length line)]"

definition is_in_string :: "string \<Rightarrow> nat \<Rightarrow> bool" where
  "is_in_string line pos = (fst (quote_state line pos) \<or> snd (quote_state line pos))"

subsection \<open>\<^verbatim>\<open>_is_in_comment\<close>\<close>

definition line_pos_to_absolute :: "LuaParser \<Rightarrow> nat \<Rightarrow> nat \<Rightarrow> nat" where
  "line_pos_to_absolute self line_num pos =
     sum_list (map (\<lambda>line. length line + 1) (take line_num (lines self))) + pos"

text \<open>
  Every caller passes a \<open>line_num\<close> below \<^verbatim>\<open>len(self.lines)\<close> (it has read
  \<^verbatim>\<open>self.lines[line_num]\<close> itself, or enumerates the lines), so the read of the line
  cannot fail here.
\<close>

definition is_in_comment :: "LuaParser \<Rightarrow> nat \<Rightarrow> nat \<Rightarrow> bool" where
  "is_in_comment self line_num pos =
     (let line = lines self ! line_num in
      if (case str_find ''--'' line of
            None \<Rightarrow> False
          | Some comment_start \<Rightarrow> comment_start \<le> pos \<and> \<not> is_in_string line comment_start)
      then True
      else (let before_pos = take (line_pos_to_absolute self line_num pos) (content self)
            in re_count ml_close before_pos < re_count ml_open before_pos))"

subsection \<open>\<^verbatim>\<open>find_function_definitions\<close>\<close>

text \<open>
  \<^verbatim>\<open>match.group(1) or match.group(2)\<close>.  Each alternative of the definition pattern
  fills its own group with a non-empty name, so the final default is never reached.
\<close>

definition def_name :: "string \<Rightarrow> re_match \<Rightarrow> string" where
  "def_name line m =
     (case group line m 1 of
        Some n \<Rightarrow> if n \<noteq> [] then n else (case group line m 2 of Some n2 \<Rightarrow> n2 | None \<Rightarrow> [])
      | None \<Rightarrow> (case group line m 2 of Some n2 \<Rightarrow> n2 | None \<Rightarrow> []))"

text \<open>
  The body of the loop over \<^verbatim>\<open>enumerate(self.lines)\<close>; the dictionary
  \<^verbatim>\<open>functions\<close> is an association list, \<^verbatim>\<open>functions[k] = v\<close> is \<^const>\<open>AList.update\<close>.
\<close>

definition scan_line_defs :: "LuaParser \<Rightarrow> (string \<times> nat) list \<Rightarrow> nat \<Rightarrow> (string \<times> nat) list" where
  "scan_line_defs self functions line_num =
     (let line = lines self ! line_num in
      if is_in_comment self line_num 0 then functions
      else foldl (\<lambda>fs m. if \<not> is_in_string line (m_start m)
                          then AList.update (def_name line m) (line_num + 1) fs else fs)
             functions (re_finditer def_pattern line))"

definition find_function_definitions :: "LuaParser \<Rightarrow> (string \<times> nat) list" where
  "find_function_definitions self =
     foldl (scan_line_defs self) [] [0..<length (lines self)]"

subsection \<open>\<^verbatim>\<open>find_on_load_functions\<close>\<close>

text \<open>\<^verbatim>\<open>m.group(1)\<close> of a pattern whose group 1 takes part in every match.\<close>

definition group1 :: "string \<Rightarrow> re_match \<Rightarrow> string" where
  "group1 s m = (case group s m 1 of Some g \<Rightarrow> g | None \<Rightarrow> [])"

definition find_on_load_functions :: "LuaParser \<Rightarrow> string list option" where
  "find_on_load_functions self =
     (case re_search on_load_pattern (content self) of
        None \<Rightarrow> None
      | Some m \<Rightarrow>
          (let on_load_body = group1 (content self) m
           in Some (filter (\<lambda>func_name. func_name \<noteq> ''script'')
                      (map (group1 on_load_body) (re_finditer call_pattern on_load_body)))))"

subsection \<open>Function boundaries\<close>

text \<open>
  The first loop of \<^verbatim>\<open>find_function_calls\<close> and of \<^verbatim>\<open>check_forbidden_globals\<close>:
  the first line on which the definition pattern for the name is found and whose
  column 0 is not in a comment; \<^const>\<open>None\<close> is \<^verbatim>\<open>start_pos is None\<close>.
\<close>

definition find_start :: "LuaParser \<Rightarrow> string \<Rightarrow> nat option" where
  "find_start self function_name =
     List.find (\<lambda>line_num. re_search (func_pattern function_name) (lines self ! line_num) \<noteq> None
                            \<and> \<not> is_in_comment self line_num 0)
       [0..<length (lines self)]"

text \<open>The net number of keywords on a line: \<^verbatim>\<open>function\<close> opens, \<^verbatim>\<open>end\<close> closes.\<close>

definition kw_delta :: "string \<Rightarrow> int" where
  "kw_delta line = int (re_count kw_function line) - int (re_count kw_end line)"

text \<open>
  The second loop, over \<^verbatim>\<open>range(start_pos, len(self.lines))\<close>, with the running
  \<^verbatim>\<open>depth\<close>; when the loop runs out, \<^verbatim>\<open>end_pos\<close> keeps its initial value
  \<^verbatim>\<open>len(self.lines)\<close>.
\<close>

fun find_end_loop :: "LuaParser \<Rightarrow> nat \<Rightarrow> int \<Rightarrow> nat list \<Rightarrow> nat" where
  "find_end_loop self start_pos depth [] = length (lines self)"
| "find_end_loop self start_pos depth (line_num # rest) =
     (if is_in_comment self line_num 0 then find_end_loop self start_pos depth rest
      else (let depth' = depth + kw_delta (lines self ! line_num)
            in if depth' = 0 \<and> start_pos < line_num then line_num
               else find_end_loop self start_pos depth' rest))"

definition find_end :: "LuaParser \<Rightarrow> nat \<Rightarrow> nat" where
  "find_end self start_pos = find_end_loop self start_pos 0 [start_pos..<length (lines self)]"

subsection \<open>\<^verbatim>\<open>find_function_calls\<close>\<close>

text \<open>\<^verbatim>\<open>self.lines[a:b]\<close> for \<open>0 \<le> a\<close>: a slice never fails.\<close>

definition slice :: "'a list \<Rightarrow> nat \<Rightarrow> nat \<Rightarrow> 'a list" where
  "slice xs a b = take (b - a) (drop a xs)"

definition find_function_calls :: "LuaParser \<Rightarrow> string \<Rightarrow> string list" where
  "find_function_calls self function_name =
     (case find_start self function_name of
        None \<Rightarrow> []
      | Some start_pos \<Rightarrow>
          (let end_pos = find_end self start_pos;
               function_body = join_nl (slice (lines self) start_pos (end_pos + 1))
           in filter (\<lambda>func_name. func_name \<notin> set [''function'', ''if'', ''for'', ''while''])
                (map (group1 function_body) (re_finditer call_pattern function_body))))"

subsection \<open>\<^verbatim>\<open>check_forbidden_globals\<close>\<close>

definition error_msg :: "string \<Rightarrow> string \<Rightarrow> string" where
  "error_msg function_name global_name =
     ''Function '' @ [CHR 0x27] @ function_name @ [CHR 0x27] @ '' accesses forbidden global ''
       @ [CHR 0x27] @ global_name @ [CHR 0x27] @ '' during on_load''"

text \<open>
  The innermost loops: for each forbidden global, one error for each match of its pattern
  on the line that does not start inside a string.  (The order in which Python walks the
  set \<^verbatim>\<open>FORBIDDEN_ON_LOAD_GLOBALS\<close> is not fixed; the list order stands for it.)
\<close>

definition line_errors :: "string \<Rightarrow> nat \<Rightarrow> string \<Rightarrow> (nat \<times> string) list" where
  "line_errors function_name line_num line =
     concat (map (\<lambda>global_name.
                map (\<lambda>m. (line_num + 1, error_msg function_name global_name))
                  (filter (\<lambda>m. \<not> is_in_string line (m_start m))
                     (re_finditer (global_pattern global_name) line)))
             FORBIDDEN_ON_LOAD_GLOBALS)"

text \<open>
  The event-handler bookkeeping of one line that is not skipped as a comment.  The state is
  \<^verbatim>\<open>(in_event_handler, event_handler_depth)\<close>; the third component of the result tells
  whether control reaches the scan for forbidden globals on this line (neither
  \<^verbatim>\<open>continue\<close> was taken).
\<close>

definition handler_step ::
  "nat \<Rightarrow> nat \<Rightarrow> string \<Rightarrow> bool \<times> int \<Rightarrow> bool \<times> int \<times> bool" where
  "handler_step start_pos line_num line st =
     (let entered = (str_contains ''script.on_event'' line \<and> str_contains ''function('' line);
          in_event_handler = (if entered then True else fst st);
          event_handler_depth = (if entered then 0 else snd st)
      in if in_event_handler then
           (let depth' = event_handler_depth + kw_delta line
            in if depth' \<le> 0 \<and> start_pos < line_num then (False, depth', False)
               else (True, depth', False))
         else (False, event_handler_depth, True))"

text \<open>
  The loop over \<^verbatim>\<open>range(start_pos, end_pos + 1)\<close>.  Its first statement reads
  \<^verbatim>\<open>self.lines[line_num]\<close>, which raises \<^verbatim>\<open>IndexError\<close> when \<open>line_num\<close> is
  \<^verbatim>\<open>len(self.lines)\<close>.
\<close>

fun check_loop ::
  "LuaParser \<Rightarrow> string \<Rightarrow> nat \<Rightarrow> bool \<times> int \<Rightarrow> (nat \<times> string) list \<Rightarrow> nat list
     \<Rightarrow> py_error + (nat \<times> string) list" where
  "check_loop self function_name start_pos st errors [] = Inr errors"
| "check_loop self function_name start_pos st errors (line_num # rest) =
     (if length (lines self) \<le> line_num then Inl IndexError
      else (let line = lines self ! line_num in
            if is_in_comment self line_num 0
            then check_loop self function_name start_pos st errors rest
            else (case handler_step start_pos line_num line st of
                    (in_event_handler, event_handler_depth, scan) \<Rightarrow>
                      check_loop self function_name start_pos
                        (in_event_handler, event_handler_depth)
                        (if scan then errors @ line_errors function_name line_num line
                         else errors)
                        rest)))"

definition check_forbidden_globals ::
  "LuaParser \<Rightarrow> string \<Rightarrow> py_error + (nat \<times> string) list" where
  "check_forbidden_globals self function_name =
     (case find_start self function_name of
        None \<Rightarrow> Inr []
      | Some start_pos \<Rightarrow>
          (let end_pos = find_end self start_pos
           in check_loop self function_name start_pos (False, 0) []
                [start_pos..<end_pos + 1]))"

section \<open>The files\<close>

text \<open>
  \<^verbatim>\<open>find_lua_files()\<close> yields a list of paths; \<^verbatim>\<open>open(...).read()\<close> on a path
  either gives the text or raises (unreadable, undecodable), with the text of the
  exception.  The files do not change during one run.
\<close>

datatype read_result = Text string | ReadError string

type_synonym lua_file = "string \<times> read_result"

text \<open>\<^verbatim>\<open>Path.name\<close>: the final component of the path.\<close>

definition path_name :: "string \<Rightarrow> string" where
  "path_name p = rev (takeWhile (\<lambda>c. c \<noteq> CHR ''/'') (rev p))"

section \<open>\<^verbatim>\<open>trace_call_chain\<close>\<close>

text \<open>
  The first loop: \<^verbatim>\<open>parsers\<close> and \<^verbatim>\<open>all_functions\<close> are dictionaries; a file whose
  read raises is skipped by \<^verbatim>\<open>except Exception: continue\<close>.
\<close>

fun index_files ::
  "lua_file list \<Rightarrow> (string \<times> LuaParser) list \<Rightarrow> (string \<times> string) list
     \<Rightarrow> (string \<times> LuaParser) list \<times> (string \<times> string) list" where
  "index_files [] parsers all_functions = (parsers, all_functions)"
| "index_files ((lua_file, ReadError e) # rest) parsers all_functions =
     index_files rest parsers all_functions"
| "index_files ((lua_file, Text txt) # rest) parsers all_functions =
     (let parser = LuaParser_init txt;
          parsers' = AList.update lua_file parser parsers;
          functions = find_function_definitions parser;
          all_functions' = foldl (\<lambda>af func_name. AList.update func_name lua_file af)
                             all_functions (map fst functions)
      in index_files rest parsers' all_functions')"

text \<open>
  The worklist loop \<^verbatim>\<open>while to_visit\<close>.  The set \<^verbatim>\<open>visited\<close> is kept as the list of
  its elements in the order of insertion.
\<close>

function trace_loop ::
  "(string \<times> LuaParser) list \<Rightarrow> (string \<times> string) list \<Rightarrow> string list \<Rightarrow> string list
     \<Rightarrow> string list" where
  "trace_loop parsers all_functions visited [] = visited"
| "trace_loop parsers all_functions visited (func_name # to_visit) =
     (if func_name \<in> set visited \<or> map_of all_functions func_name = None
      then trace_loop parsers all_functions visited to_visit
      else (let calls =
                  (case map_of all_functions func_name of
                     None \<Rightarrow> []
                   | Some lua_file \<Rightarrow>
                       (case map_of parsers lua_file of
                          None \<Rightarrow> []
                        | Some parser \<Rightarrow> find_function_calls parser func_name))
            in trace_loop parsers all_functions (visited @ [func_name]) (to_visit @ calls)))"
  by pat_completeness auto
termination
proof (relation "measures [\<lambda>(ps, af, visited, to_visit). card (fst ` set af - set visited),
                           \<lambda>(ps, af, visited, to_visit). length to_visit]")
  show "wf (measures [\<lambda>(ps, af, visited, to_visit). card (fst ` set af - set visited),
                      \<lambda>(ps, af, visited, to_visit). length to_visit])"
    by simp
next
  fix parsers :: "(string \<times> LuaParser) list"
    and all_functions :: "(string \<times> string) list"
    and visited to_visit :: "string list" and func_name :: string
  show "((parsers, all_functions, visited, to_visit),
         (parsers, all_functions, visited, func_name # to_visit))
        \<in> measures [\<lambda>(ps, af, visited, to_visit). card (fst ` set af - set visited),
                     \<lambda>(ps, af, visited, to_visit). length to_visit]"
    by simp
next
  fix parsers :: "(string \<times> LuaParser) list"
    and all_functions :: "(string \<times> string) list"
    and visited to_visit calls :: "string list" and func_name :: string
  assume new: "\<not> (func_name \<in> set visited \<or> map_of all_functions func_name = None)"
  then have "func_name \<in> fst ` set all_functions" and "func_name \<notin> set visited"
    by (auto simp: map_of_eq_None_iff)
  then have "fst ` set all_functions - set (visited @ [func_name])
      \<subset> fst ` set all_functions - set visited"
    by auto
  then have "card (fst ` set all_functions - set (visited @ [func_name]))
      < card (fst ` set all_functions - set visited)"
    by (intro psubset_card_mono) auto
  then show "((parsers, all_functions, visited @ [func_name], to_visit @ calls),
         (parsers, all_functions, visited, func_name # to_visit))
        \<in> measures [\<lambda>(ps, af, visited, to_visit). card (fst ` set af - set visited),
                     \<lambda>(ps, af, visited, to_visit). length to_visit]"
    by simp
qed

definition trace_call_chain :: "string list \<Rightarrow> lua_file list \<Rightarrow> string list" where
  "trace_call_chain initial_functions lua_files =
     (case index_files lua_files [] [] of
        (parsers, all_functions) \<Rightarrow> trace_loop parsers all_functions [] initial_functions)"

section \<open>\<^verbatim>\<open>check_on_load_globals\<close>\<close>

text \<open>The second reading of the files: the dictionary \<^verbatim>\<open>parsers\<close> of the checking phase.\<close>

fun load_parsers :: "lua_file list \<Rightarrow> (string \<times> LuaParser) list \<Rightarrow> (string \<times> LuaParser) list" where
  "load_parsers [] parsers = parsers"
| "load_parsers ((lua_file, ReadError e) # rest) parsers = load_parsers rest parsers"
| "load_parsers ((lua_file, Text txt) # rest) parsers =
     load_parsers rest (AList.update lua_file (LuaParser_init txt) parsers)"

type_synonym diagnostic = "string \<times> nat \<times> string"

text \<open>
  The loop \<^verbatim>\<open>for lua_file, parser in parsers.items()\<close> for one function name; an
  exception raised by \<^verbatim>\<open>check_forbidden_globals\<close> is not caught.
\<close>

fun check_parsers ::
  "string \<Rightarrow> (string \<times> LuaParser) list \<Rightarrow> diagnostic list \<Rightarrow> py_error + diagnostic list" where
  "check_parsers func_name [] errors = Inr errors"
| "check_parsers func_name ((lua_file, parser) # rest) errors =
     (case check_forbidden_globals parser func_name of
        Inl e \<Rightarrow> Inl e
      | Inr func_errors \<Rightarrow>
          check_parsers func_name rest
            (errors @ map (\<lambda>(line_num, error_msg). (lua_file, line_num, error_msg)) func_errors))"

text \<open>
  The loop \<^verbatim>\<open>for func_name in all_on_load_functions\<close>.  Python walks the set in an
  order that is not fixed; the list order stands for it, so statements about the result
  are about which diagnostics it holds and how often, not about their order.
\<close>

fun check_functions ::
  "string list \<Rightarrow> (string \<times> LuaParser) list \<Rightarrow> diagnostic list \<Rightarrow> py_error + diagnostic list" where
  "check_functions [] parsers errors = Inr errors"
| "check_functions (func_name # rest) parsers errors =
     (case check_parsers func_name parsers errors of
        Inl e \<Rightarrow> Inl e
      | Inr errors' \<Rightarrow> check_functions rest parsers errors')"

definition check_on_load_globals :: "lua_file list \<Rightarrow> py_error + diagnostic list" where
  "check_on_load_globals lua_files =
     (case List.find (\<lambda>lua_file. path_name (fst lua_file) = ''control.lua'') lua_files of
        None \<Rightarrow> Inr [(''control.lua'', 0, ''control.lua not found'')]
      | Some (control_lua, ReadError e) \<Rightarrow>
          Inr [(''control.lua'', 0, ''Failed to parse control.lua: '' @ e)]
      | Some (control_lua, Text txt) \<Rightarrow>
          (case find_on_load_functions (LuaParser_init txt) of
             None \<Rightarrow> Inr [(''control.lua'', 0, ''on_load handler not found'')]
           | Some on_load_functions \<Rightarrow>
               if on_load_functions = []
               then Inr [(''control.lua'', 0, ''on_load handler not found'')]
               else (let all_on_load_functions = trace_call_chain on_load_functions lua_files;
                         parsers = load_parsers lua_files []
                     in check_functions all_on_load_functions parsers [])))"

section \<open>\<^verbatim>\<open>conftest.is_in_string_literal\<close>\<close>




text \<open>The value bound to \<^verbatim>\<open>calls\<close> in the worklist loop.\<close>

definition calls_of ::
  "(string \<times> LuaParser) list \<Rightarrow> (string \<times> string) list \<Rightarrow> string \<Rightarrow> string list" where
  "calls_of parsers all_functions func_name =
     (case map_of all_functions func_name of
        None \<Rightarrow> []
      | Some lua_file \<Rightarrow>
          (case map_of parsers lua_file of
             None \<Rightarrow> []
           | Some parser \<Rightarrow> find_function_calls parser func_name))"

text \<open>
  The test of the first loop of \<^verbatim>\<open>check_on_load_globals\<close> for the entry file, and
  whether reading a file gives its text.
\<close>

definition is_control :: "lua_file \<Rightarrow> bool" where
  "is_control lua_file = (path_name (fst lua_file) = ''control.lua'')"

fun is_readable :: "lua_file \<Rightarrow> bool" where
  "is_readable (lua_file, Text txt) = True"
| "is_readable (lua_file, ReadError e) = False"

section \<open>The checking loop, taken apart\<close>










text \<open>
  The shape of a callee name: a non-empty run of word characters, optionally followed by
  a dot and another such run.  And the text \<^verbatim>\<open>function_body\<close> that
  \<^verbatim>\<open>find_function_calls\<close> searches: the lines of the span joined by newlines.
\<close>

definition is_call_name :: "string \<Rightarrow> bool" where
  "is_call_name w =
     (let a = takeWhile is_word_char w; rest = drop (length a) w
      in a \<noteq> [] \<and> (rest = [] \<or> (hd rest = CHR ''.'' \<and> tl rest \<noteq> []
                                       \<and> list_all is_word_char (tl rest))))"

definition span_text :: "LuaParser \<Rightarrow> nat \<Rightarrow> string" where
  "span_text self start_pos =
     join_nl (slice (lines self) start_pos (find_end self start_pos + 1))"


section \<open>The checking loop in the words of its description\<close>

text \<open>
  The definitions of this section say in closed form which lines of a file are scanned for
  forbidden globals.  They do not run the loops of \<^verbatim>\<open>check_forbidden_globals\<close>; that the
  loops compute them is proved further down.
\<close>









section \<open>The in-string test in the words of its description\<close>





section \<open>The string scan\<close>










section \<open>The read past the last line\<close>

text \<open>
  C2.  The entry file below has an on-load handler that calls \<open>f\<close>, and defines \<open>f\<close> on
  its last line, which is not followed by a newline.  No line after the definition line
  brings the keyword depth back to zero, so \<^verbatim>\<open>end_pos\<close> stays \<^verbatim>\<open>len(self.lines)\<close>,
  the checking loop runs up to that index, and \<^verbatim>\<open>self.lines[line_num]\<close> raises
  \<^verbatim>\<open>IndexError\<close>, which nothing catches: the analysis does not return a list of
  diagnostics.
\<close>

theorem check_on_load_globals_raises:
  "check_on_load_globals
     [(''control.lua'',
       Text (''script.on_load(function() f() end)'' @ [CHR 0x0A] @ ''function f() end''))]
   = Inl IndexError"
  by code_simp

section \<open>The call-graph tracer\<close>

lemma trace_loop_skip:
  "func_name \<in> set visited \<or> map_of all_functions func_name = None \<Longrightarrow>
   trace_loop parsers all_functions visited (func_name # to_visit)
     = trace_loop parsers all_functions visited to_visit"
  by simp

lemma trace_loop_visit:
  "\<not> (func_name \<in> set visited \<or> map_of all_functions func_name = None) \<Longrightarrow>
   trace_loop parsers all_functions visited (func_name # to_visit)
     = trace_loop parsers all_functions (visited @ [func_name])
         (to_visit @ calls_of parsers all_functions func_name)"
  by (auto simp: calls_of_def Let_def)

lemma trace_loop_subset:
  "set (trace_loop parsers all_functions visited to_visit)
     \<subseteq> set visited \<union> fst ` set all_functions"
proof (induction parsers all_functions visited to_visit rule: trace_loop.induct)
  case (1 parsers all_functions visited)
  show ?case by simp
next
  case (2 parsers all_functions visited func_name to_visit)
  show ?case
  proof (cases "func_name \<in> set visited \<or> map_of all_functions func_name = None")
    case True
    from "2.IH"(1) [OF True] show ?thesis
      by (simp only: trace_loop_skip [OF True])
  next
    case False
    then have known: "func_name \<in> fst ` set all_functions"
      by (auto simp: map_of_eq_None_iff)
    from "2.IH"(2) [OF False refl]
    have "set (trace_loop parsers all_functions (visited @ [func_name])
                 (to_visit @ calls_of parsers all_functions func_name))
          \<subseteq> set (visited @ [func_name]) \<union> fst ` set all_functions"
      by (simp only: calls_of_def)
    with known show ?thesis
      by (simp only: trace_loop_visit [OF False]) auto
  qed
qed

lemma trace_loop_distinct:
  "distinct visited \<Longrightarrow> distinct (trace_loop parsers all_functions visited to_visit)"
proof (induction parsers all_functions visited to_visit rule: trace_loop.induct)
  case (1 parsers all_functions visited)
  then show ?case by simp
next
  case (2 parsers all_functions visited func_name to_visit)
  show ?case
  proof (cases "func_name \<in> set visited \<or> map_of all_functions func_name = None")
    case True
    from "2.IH"(1) [OF True "2.prems"] show ?thesis
      by (simp only: trace_loop_skip [OF True])
  next
    case False
    with "2.prems" have d: "distinct (visited @ [func_name])" by simp
    from "2.IH"(2) [OF False refl d]
    have "distinct (trace_loop parsers all_functions (visited @ [func_name])
                 (to_visit @ calls_of parsers all_functions func_name))"
      by (simp only: calls_of_def)
    then show ?thesis
      by (simp only: trace_loop_visit [OF False])
  qed
qed

text \<open>
  C3.  The worklist loop is a total function: its termination proof uses the number of
  indexed names not yet visited, then the length of the worklist, so neither a function that
  calls itself nor functions that call each other keep it running.  The reachable set holds
  indexed names only, each once, so it has at most as many elements as there are distinct
  indexed names.
\<close>

theorem trace_call_chain_bounded:
  "set (trace_call_chain initial_functions lua_files)
     \<subseteq> fst ` set (snd (index_files lua_files [] []))
   \<and> distinct (trace_call_chain initial_functions lua_files)
   \<and> length (trace_call_chain initial_functions lua_files)
       \<le> card (fst ` set (snd (index_files lua_files [] [])))"
proof -
  obtain parsers all_functions where ix: "index_files lua_files [] [] = (parsers, all_functions)"
    by (cases "index_files lua_files [] []")
  let ?r = "trace_loop parsers all_functions [] initial_functions"
  have sub: "set ?r \<subseteq> fst ` set all_functions"
    using trace_loop_subset [of parsers all_functions "[]" initial_functions] by simp
  have dist: "distinct ?r" by (rule trace_loop_distinct) simp
  from dist have "length ?r = card (set ?r)" by (simp add: distinct_card)
  also from sub have "\<dots> \<le> card (fst ` set all_functions)"
    by (intro card_mono) auto
  finally have "length ?r \<le> card (fst ` set all_functions)" .
  with sub dist ix show ?thesis by (simp add: trace_call_chain_def)
qed

text \<open>A function that calls itself, and two functions that call each other.\<close>

lemma trace_call_chain_self_recursion:
  "trace_call_chain [''f'']
     [(''a.lua'', Text (''function f()'' @ [CHR 0x0A] @ ''  f()'' @ [CHR 0x0A] @ ''end''))]
   = [''f'']"
  by code_simp

lemma trace_call_chain_mutual_recursion:
  "trace_call_chain [''f'']
     [(''a.lua'', Text (''function f()'' @ [CHR 0x0A] @ ''  g()'' @ [CHR 0x0A] @ ''end'')),
      (''b.lua'', Text (''function g()'' @ [CHR 0x0A] @ ''  f()'' @ [CHR 0x0A] @ ''end''))]
   = [''f'', ''g'']"
  by code_simp

section \<open>Where diagnostics come from\<close>

lemma line_errors_line: "d \<in> set (line_errors function_name line_num line) \<Longrightarrow> fst d = line_num + 1"
  by (auto simp: line_errors_def)

lemma check_loop_lines:
  "check_loop self function_name start_pos st errors ns = Inr out \<Longrightarrow>
   d \<in> set out \<Longrightarrow> d \<in> set errors \<or> 0 < fst d"
proof (induction ns arbitrary: st errors)
  case Nil
  then show ?case by simp
next
  case (Cons n ns)
  show ?case
  proof (cases "length (lines self) \<le> n")
    case True
    with Cons.prems show ?thesis by simp
  next
    case False
    note in_range = this
    show ?thesis
    proof (cases "is_in_comment self n 0")
      case True
      with in_range Cons.prems have "check_loop self function_name start_pos st errors ns = Inr out"
        by simp
      from Cons.IH [OF this Cons.prems(2)] show ?thesis .
    next
      case False
      obtain a b scan where hs: "handler_step start_pos n (lines self ! n) st = (a, b, scan)"
        by (cases "handler_step start_pos n (lines self ! n) st")
      with in_range False Cons.prems
      have "check_loop self function_name start_pos (a, b)
              (if scan then errors @ line_errors function_name n (lines self ! n) else errors) ns
            = Inr out"
        by simp
      from Cons.IH [OF this Cons.prems(2)]
      show ?thesis by (auto split: if_splits dest: line_errors_line)
    qed
  qed
qed

lemma check_forbidden_globals_lines:
  "check_forbidden_globals self function_name = Inr errs \<Longrightarrow> d \<in> set errs \<Longrightarrow> 0 < fst d"
  by (auto simp: check_forbidden_globals_def Let_def split: option.splits
      dest: check_loop_lines)

lemma check_parsers_lines:
  "check_parsers func_name parsers errors = Inr out \<Longrightarrow> d \<in> set out \<Longrightarrow>
   d \<in> set errors \<or> (0 < fst (snd d) \<and> fst d \<in> fst ` set parsers)"
proof (induction parsers arbitrary: errors)
  case Nil
  then show ?case by simp
next
  case (Cons p parsers)
  obtain lua_file parser where p: "p = (lua_file, parser)" by (cases p)
  show ?case
  proof (cases "check_forbidden_globals parser func_name")
    case (Inl e)
    with p Cons.prems show ?thesis by simp
  next
    case (Inr func_errors)
    with p Cons.prems
    have "check_parsers func_name parsers
            (errors @ map (\<lambda>(line_num, error_msg). (lua_file, line_num, error_msg)) func_errors)
          = Inr out"
      by simp
    from Cons.IH [OF this Cons.prems(2)] p Inr
    show ?thesis
      by (auto dest: check_forbidden_globals_lines)
  qed
qed

lemma check_functions_lines:
  "check_functions names parsers errors = Inr out \<Longrightarrow> d \<in> set out \<Longrightarrow>
   d \<in> set errors \<or> (0 < fst (snd d) \<and> fst d \<in> fst ` set parsers)"
proof (induction names arbitrary: errors)
  case Nil
  then show ?case by simp
next
  case (Cons func_name names)
  show ?case
  proof (cases "check_parsers func_name parsers errors")
    case (Inl e)
    with Cons.prems show ?thesis by simp
  next
    case (Inr errors')
    with Cons.prems have "check_functions names parsers errors' = Inr out" by simp
    from Cons.IH [OF this Cons.prems(2)] Inr
    show ?thesis by (auto dest: check_parsers_lines)
  qed
qed

lemma find_is_control:
  "List.find (\<lambda>lua_file. path_name (fst lua_file) = ''control.lua'') lua_files
     = List.find is_control lua_files"
  by (simp add: is_control_def [abs_def])

section \<open>Setup errors\<close>

text \<open>
  C4 (amended).  The analysis returns exactly one diagnostic, at line 0 of
  \<^verbatim>\<open>control.lua\<close>, and traces and checks nothing, when no file named
  \<^verbatim>\<open>control.lua\<close> is in the corpus, when that file cannot be read, or when its text
  has no match of the on-load registration pattern.  When the file is readable and its
  registration body names at least one call other than \<^verbatim>\<open>script\<close>, no setup error is
  produced: every diagnostic of a run that returns has a line number of at least 1.
\<close>

theorem setup_error_cases:
  "(List.find is_control lua_files = None \<longrightarrow>
      check_on_load_globals lua_files = Inr [(''control.lua'', 0, ''control.lua not found'')])
   \<and> (List.find is_control lua_files = Some (control_lua, ReadError e) \<longrightarrow>
      check_on_load_globals lua_files
        = Inr [(''control.lua'', 0, ''Failed to parse control.lua: '' @ e)])
   \<and> (List.find is_control lua_files = Some (control_lua, Text txt)
        \<and> re_search on_load_pattern txt = None \<longrightarrow>
      check_on_load_globals lua_files = Inr [(''control.lua'', 0, ''on_load handler not found'')])
   \<and> (List.find is_control lua_files = Some (control_lua, Text txt)
        \<and> find_on_load_functions (LuaParser_init txt) = Some on_load_functions
        \<and> on_load_functions \<noteq> []
        \<and> check_on_load_globals lua_files = Inr out \<and> d \<in> set out \<longrightarrow>
      0 < fst (snd d))"
proof (intro conjI impI)
  assume "List.find is_control lua_files = None"
  then show "check_on_load_globals lua_files = Inr [(''control.lua'', 0, ''control.lua not found'')]"
    by (simp add: check_on_load_globals_def find_is_control)
next
  assume "List.find is_control lua_files = Some (control_lua, ReadError e)"
  then show "check_on_load_globals lua_files
        = Inr [(''control.lua'', 0, ''Failed to parse control.lua: '' @ e)]"
    by (simp add: check_on_load_globals_def find_is_control)
next
  assume "List.find is_control lua_files = Some (control_lua, Text txt)
        \<and> re_search on_load_pattern txt = None"
  then show "check_on_load_globals lua_files = Inr [(''control.lua'', 0, ''on_load handler not found'')]"
    by (simp add: check_on_load_globals_def find_is_control find_on_load_functions_def
        LuaParser_init_def)
next
  assume a: "List.find is_control lua_files = Some (control_lua, Text txt)
        \<and> find_on_load_functions (LuaParser_init txt) = Some on_load_functions
        \<and> on_load_functions \<noteq> []
        \<and> check_on_load_globals lua_files = Inr out \<and> d \<in> set out"
  then have "check_functions (trace_call_chain on_load_functions lua_files)
               (load_parsers lua_files []) [] = Inr out"
    by (clarsimp simp: check_on_load_globals_def find_is_control Let_def)
  from check_functions_lines [OF this] a show "0 < fst (snd d)" by auto
qed

text \<open>
  The four cases at concrete corpora: no entry file, an unreadable entry file, an entry
  file without registration, and an entry file whose handler calls a function that
  accesses \<^verbatim>\<open>game\<close>.
\<close>

theorem setup_error_cases_witness:
  "check_on_load_globals [(''data.lua'', Text ''x = 1'')]
     = Inr [(''control.lua'', 0, ''control.lua not found'')]
   \<and> check_on_load_globals [(''mod/control.lua'', ReadError ''denied'')]
     = Inr [(''control.lua'', 0, ''Failed to parse control.lua: denied'')]
   \<and> check_on_load_globals [(''mod/control.lua'', Text ''x = 1'')]
     = Inr [(''control.lua'', 0, ''on_load handler not found'')]
   \<and> check_on_load_globals
        [(''control.lua'',
          Text (''script.on_load(function() f() end)'' @ [CHR 0x0A] @ ''function f()''
                @ [CHR 0x0A] @ ''game.x()'' @ [CHR 0x0A] @ ''end''))]
     = Inr [(''control.lua'', 3, error_msg ''f'' ''game'')]
   \<and> (0::nat) < fst (snd (''control.lua'', 3::nat, error_msg ''f'' ''game''))"
proof -
  let ?t = "''script.on_load(function() f() end)'' @ [CHR 0x0A] @ ''function f()''
                @ [CHR 0x0A] @ ''game.x()'' @ [CHR 0x0A] @ ''end''"
  let ?d = "(''control.lua'', 3::nat, error_msg ''f'' ''game'')"
  have h1: "List.find is_control [(''data.lua'', Text ''x = 1'')] = None"
    by code_simp
  have h2: "List.find is_control [(''mod/control.lua'', ReadError ''denied'')]
              = Some (''mod/control.lua'', ReadError ''denied'')"
    by code_simp
  have h3: "List.find is_control [(''mod/control.lua'', Text ''x = 1'')]
              = Some (''mod/control.lua'', Text ''x = 1'')
            \<and> re_search on_load_pattern ''x = 1'' = None"
    by code_simp
  have f4: "List.find is_control [(''control.lua'', Text ?t)] = Some (''control.lua'', Text ?t)"
    by code_simp
  have s4: "find_on_load_functions (LuaParser_init ?t) = Some [''f'']"
    by code_simp
  have c4: "check_on_load_globals [(''control.lua'', Text ?t)] = Inr [?d]"
    by code_simp
  have h4: "List.find is_control [(''control.lua'', Text ?t)] = Some (''control.lua'', Text ?t)
        \<and> find_on_load_functions (LuaParser_init ?t) = Some [''f'']
        \<and> [''f''] \<noteq> []
        \<and> check_on_load_globals [(''control.lua'', Text ?t)] = Inr [?d] \<and> ?d \<in> set [?d]"
    using f4 s4 c4 by simp
  note t1 = setup_error_cases [of "[(''data.lua'', Text ''x = 1'')]", THEN conjunct1, THEN mp, OF h1]
  note t2 = setup_error_cases [of "[(''mod/control.lua'', ReadError ''denied'')]"
      "''mod/control.lua''" "''denied''", THEN conjunct2, THEN conjunct1, THEN mp, OF h2]
  note t3 = setup_error_cases [of "[(''mod/control.lua'', Text ''x = 1'')]"
      "''mod/control.lua''" _ "''x = 1''", THEN conjunct2, THEN conjunct2, THEN conjunct1,
      THEN mp, OF h3]
  note t4 = setup_error_cases [of "[(''control.lua'', Text ?t)]" "''control.lua''" _ ?t
      "[''f'']" "[?d]" ?d, THEN conjunct2, THEN conjunct2, THEN conjunct2, THEN mp, OF h4]
  from t1 t2 t3 c4 t4 show ?thesis by simp
qed

text \<open>
  C4 as stated fails: an entry file that is present and holds the registration pattern,
  with an empty handler body, still gives the single setup error; so does an entry file
  that is present but unreadable.
\<close>

theorem setup_error_counterexample:
  "check_on_load_globals [(''control.lua'', Text ''script.on_load(function() end)'')]
     = Inr [(''control.lua'', 0, ''on_load handler not found'')]
   \<and> re_search on_load_pattern ''script.on_load(function() end)'' \<noteq> None
   \<and> check_on_load_globals [(''control.lua'', ReadError ''denied'')]
     = Inr [(''control.lua'', 0, ''Failed to parse control.lua: denied'')]"
  by code_simp

section \<open>Unreadable files\<close>

lemma find_filter:
  "(\<And>x. List.find P xs = Some x \<Longrightarrow> Q x) \<Longrightarrow> List.find P (filter Q xs) = List.find P xs"
  by (induction xs) auto

lemma index_files_filter:
  "index_files (filter is_readable lua_files) parsers all_functions
     = index_files lua_files parsers all_functions"
  by (induction lua_files parsers all_functions rule: index_files.induct)
     (simp_all add: Let_def)

lemma load_parsers_filter:
  "load_parsers (filter is_readable lua_files) parsers = load_parsers lua_files parsers"
  by (induction lua_files parsers rule: load_parsers.induct) simp_all

lemma load_parsers_keys:
  "fst ` set (load_parsers lua_files parsers)
     = fst ` set parsers \<union> fst ` set (filter is_readable lua_files)"
  by (induction lua_files parsers rule: load_parsers.induct)
     (auto simp: dom_update)


text \<open>
  C5 (amended).  When the entry file is not itself unreadable, unreadable files are
  skipped without a trace: the analysis gives the same result as on the corpus without
  them, the index is the same, and every diagnostic names \<^verbatim>\<open>control.lua\<close> or the
  path of a readable file.  No diagnostic is recorded for an unreadable file.
\<close>

theorem unreadable_files_skipped:
  assumes "\<forall>control_lua e. List.find is_control lua_files \<noteq> Some (control_lua, ReadError e)"
  shows "check_on_load_globals lua_files = check_on_load_globals (filter is_readable lua_files)
    \<and> index_files lua_files [] [] = index_files (filter is_readable lua_files) [] []
    \<and> (\<forall>out d. check_on_load_globals lua_files = Inr out \<and> d \<in> set out \<longrightarrow>
          fst d = ''control.lua'' \<or> fst d \<in> fst ` set (filter is_readable lua_files))"
proof -
  have "\<And>x. List.find is_control lua_files = Some x \<Longrightarrow> is_readable x"
  proof -
    fix x assume "List.find is_control lua_files = Some x"
    with assms show "is_readable x" by (cases x rule: is_readable.cases) auto
  qed
  then have find_eq: "List.find is_control (filter is_readable lua_files)
      = List.find is_control lua_files"
    by (rule find_filter)
  have trace_eq: "\<And>seeds. trace_call_chain seeds (filter is_readable lua_files)
      = trace_call_chain seeds lua_files"
    by (simp add: trace_call_chain_def index_files_filter)
  have eq: "check_on_load_globals lua_files = check_on_load_globals (filter is_readable lua_files)"
    by (simp add: check_on_load_globals_def find_is_control find_eq trace_eq load_parsers_filter
        split: option.split prod.split read_result.split)
  have files: "\<forall>out d. check_on_load_globals lua_files = Inr out \<and> d \<in> set out \<longrightarrow>
          fst d = ''control.lua'' \<or> fst d \<in> fst ` set (filter is_readable lua_files)"
  proof (intro allI impI)
    fix out d
    assume a: "check_on_load_globals lua_files = Inr out \<and> d \<in> set out"
    show "fst d = ''control.lua'' \<or> fst d \<in> fst ` set (filter is_readable lua_files)"
    proof (cases "\<exists>names. check_functions names (load_parsers lua_files []) [] = Inr out")
      case True
      then obtain names where "check_functions names (load_parsers lua_files []) [] = Inr out"
        by blast
      from check_functions_lines [OF this] a
      have "fst d \<in> fst ` set (load_parsers lua_files [])" by auto
      then show ?thesis by (simp add: load_parsers_keys)
    next
      case False
      with a have "fst d = ''control.lua''"
        by (auto simp: check_on_load_globals_def Let_def
            split: option.splits prod.splits read_result.splits if_splits)
      then show ?thesis by simp
    qed
  qed
  from eq files show ?thesis by (simp add: index_files_filter)
qed

text \<open>An unreadable file beside an entry file whose handler reaches a violation.\<close>

theorem unreadable_files_skipped_witness:
  "check_on_load_globals
     [(''control.lua'',
       Text (''script.on_load(function() f() end)'' @ [CHR 0x0A] @ ''function f()''
             @ [CHR 0x0A] @ ''game.x()'' @ [CHR 0x0A] @ ''end'')),
      (''bad.lua'', ReadError ''denied'')]
   = check_on_load_globals
     [(''control.lua'',
       Text (''script.on_load(function() f() end)'' @ [CHR 0x0A] @ ''function f()''
             @ [CHR 0x0A] @ ''game.x()'' @ [CHR 0x0A] @ ''end''))]"
proof -
  let ?c = "(''control.lua'',
       Text (''script.on_load(function() f() end)'' @ [CHR 0x0A] @ ''function f()''
             @ [CHR 0x0A] @ ''game.x()'' @ [CHR 0x0A] @ ''end''))"
  have "List.find is_control [?c, (''bad.lua'', ReadError ''denied'')] = Some ?c"
    by code_simp
  then have h: "\<forall>control_lua e. List.find is_control [?c, (''bad.lua'', ReadError ''denied'')]
      \<noteq> Some (control_lua, ReadError e)"
    by simp
  from unreadable_files_skipped [OF h] show ?thesis by simp
qed

text \<open>
  C5 as stated fails: with an unreadable file in the corpus the analysis returns no
  diagnostic at all, so none at line 0 for that file.
\<close>

theorem unreadable_file_counterexample:
  "check_on_load_globals
     [(''control.lua'',
       Text (''script.on_load(function() f() end)'' @ [CHR 0x0A] @ ''function f()''
             @ [CHR 0x0A] @ ''end'' @ [CHR 0x0A])),
      (''bad.lua'', ReadError ''denied'')]
   = Inr []"
  by code_simp

section \<open>What the checking loop returns\<close>



lemma find_end_loop_range:
  "find_end_loop self start_pos depth ns = length (lines self)
   \<or> (find_end_loop self start_pos depth ns \<in> set ns
       \<and> start_pos < find_end_loop self start_pos depth ns)"
  by (induction ns arbitrary: depth) (auto simp: Let_def)


lemma find_end_gt: "find_end self start_pos < length (lines self) \<Longrightarrow> start_pos < find_end self start_pos"
  using find_end_loop_range [of self start_pos 0 "[start_pos..<length (lines self)]"]
  by (auto simp: find_end_def)





section \<open>Counting diagnostics\<close>



















lemma find_start_first:
  "find_start self function_name = Some start_pos \<Longrightarrow>
   start_pos < length (lines self)
   \<and> re_search (func_pattern function_name) (lines self ! start_pos) \<noteq> None
   \<and> \<not> is_in_comment self start_pos 0
   \<and> (\<forall>k<start_pos. re_search (func_pattern function_name) (lines self ! k) = None
                        \<or> is_in_comment self k 0)"
  by (auto simp: find_start_def find_Some_iff)

section \<open>The diagnostics of one line\<close>


section \<open>Where the errors of the checking loop come from\<close>



section \<open>The body locator\<close>



text \<open>
  C7.  A comment line that is indented is not skipped: the test for a comment line is
  \<^verbatim>\<open>_is_in_comment(line_num, 0)\<close>, and column 0 of \<^verbatim>\<open>  -- the end\<close> is before the
  comment marker.  The word \<^verbatim>\<open>end\<close> of the comment is counted, the body of \<open>f\<close>
  (defined on line index 1) ends on the comment line (index 2), and the access to
  \<^verbatim>\<open>game\<close> on the next line is never checked: the analysis reports nothing.
\<close>

theorem indented_comment_line_counted:
  "find_start
     (LuaParser_init (''script.on_load(function() f() end)'' @ [CHR 0x0A] @ ''function f()''
        @ [CHR 0x0A] @ ''  -- the end'' @ [CHR 0x0A] @ ''  game.x()'' @ [CHR 0x0A] @ ''end''
        @ [CHR 0x0A])) ''f'' = Some 1
   \<and> is_in_comment
     (LuaParser_init (''script.on_load(function() f() end)'' @ [CHR 0x0A] @ ''function f()''
        @ [CHR 0x0A] @ ''  -- the end'' @ [CHR 0x0A] @ ''  game.x()'' @ [CHR 0x0A] @ ''end''
        @ [CHR 0x0A])) 2 0 = False
   \<and> find_end
     (LuaParser_init (''script.on_load(function() f() end)'' @ [CHR 0x0A] @ ''function f()''
        @ [CHR 0x0A] @ ''  -- the end'' @ [CHR 0x0A] @ ''  game.x()'' @ [CHR 0x0A] @ ''end''
        @ [CHR 0x0A])) 1 = 2
   \<and> check_on_load_globals
     [(''control.lua'',
       Text (''script.on_load(function() f() end)'' @ [CHR 0x0A] @ ''function f()''
        @ [CHR 0x0A] @ ''  -- the end'' @ [CHR 0x0A] @ ''  game.x()'' @ [CHR 0x0A] @ ''end''
        @ [CHR 0x0A]))] = Inr []"
  by code_simp

section \<open>What the patterns match\<close>

lemma is_call_name_plain:
  assumes "a \<noteq> []" and "list_all is_word_char a"
  shows "is_call_name a"
proof -
  from assms(2) have tw: "takeWhile is_word_char a = a"
    by (simp add: takeWhile_eq_all_conv list_all_iff)
  show ?thesis
    by (simp only: is_call_name_def Let_def tw) (use assms(1) in simp)
qed

lemma dot_not_word: "\<not> is_word_char (CHR ''.'')"
  by (simp add: is_word_char_def)

lemma is_call_name_dotted:
  "a \<noteq> [] \<Longrightarrow> list_all is_word_char a \<Longrightarrow> b \<noteq> [] \<Longrightarrow> list_all is_word_char b \<Longrightarrow>
   is_call_name (a @ CHR ''.'' # b)"
proof -
  assume a: "a \<noteq> []" "list_all is_word_char a" and b: "b \<noteq> []" "list_all is_word_char b"
  from a have "takeWhile is_word_char (a @ CHR ''.'' # b) = a"
    by (simp add: takeWhile_append2 list_all_iff dot_not_word)
  with a b show ?thesis by (simp add: is_call_name_def Let_def)
qed

lemma run_len_bound:
  assumes "i \<le> length s" and "n \<le> run_len k s i"
  shows "i + n \<le> length s"
proof -
  have "length (takeWhile (cmatch k) (drop i s)) \<le> length (drop i s)"
    by (rule length_takeWhile_le)
  with assms show ?thesis by (simp add: run_len_def)
qed

lemma run_len_pos:
  assumes "1 \<le> n" and "n \<le> run_len k s i"
  shows "i + n \<le> length s"
proof -
  have "length (takeWhile (cmatch k) (drop i s)) \<le> length (drop i s)"
    by (rule length_takeWhile_le)
  with assms have "1 \<le> length s - i" by (simp add: run_len_def)
  then have "i \<le> length s" by simp
  from run_len_bound [OF this assms(2)] show ?thesis .
qed

lemma run_len_take:
  assumes "n \<le> run_len k s i"
  shows "list_all (cmatch k) (take n (drop i s))"
proof -
  let ?xs = "drop i s"
  let ?t = "takeWhile (cmatch k) ?xs"
  from assms have n: "n \<le> length ?t" by (simp add: run_len_def)
  from n have "take n (?t @ dropWhile (cmatch k) ?xs) = take n ?t"
    by (simp only: take_append) simp
  then have "take n ?xs = take n ?t" by simp
  moreover have "list_all (cmatch k) (take n ?t)"
    by (auto simp: list_all_iff dest: in_set_takeD set_takeWhileD)
  ultimately show ?thesis by simp
qed

lemma rmatch_Seq_mem:
  "x \<in> set (rmatch (Seq a b) s st) \<longleftrightarrow> (\<exists>y \<in> set (rmatch a s st). x \<in> set (rmatch b s y))"
  by simp

lemma rmatch_Opt_mem:
  "x \<in> set (rmatch (Opt a) s st) \<longleftrightarrow> x \<in> set (rmatch a s st) \<or> x = st"
  by auto

lemma rmatch_Plus_mem:
  "(j, g) \<in> set (rmatch (Plus k) s (i, g0))
     \<longleftrightarrow> g = g0 \<and> (\<exists>n. 1 \<le> n \<and> n \<le> run_len k s i \<and> j = i + n)"
  by (auto simp: image_iff simp del: upt_Suc)

lemma rmatch_Star_mem:
  "(j, g) \<in> set (rmatch (Star k) s (i, g0))
     \<longleftrightarrow> g = g0 \<and> (\<exists>n. n \<le> run_len k s i \<and> j = i + n)"
  by (auto simp: image_iff simp del: upt_Suc)

lemma rmatch_ch_mem:
  "(j, g) \<in> set (rmatch (ch c) s (i, g0)) \<longleftrightarrow> g = g0 \<and> i < length s \<and> s ! i = c \<and> j = Suc i"
  by (auto simp: ch_def)

lemma rmatch_Grp_mem:
  "(j, g) \<in> set (rmatch (Grp n a) s (i, g0))
     \<longleftrightarrow> (\<exists>g'. (j, g') \<in> set (rmatch a s (i, g0)) \<and> g = (n, i, j) # g')"
  by (force simp: image_iff)

lemma take_three:
  "i + a < length s \<Longrightarrow>
   take (a + Suc b) (drop i s) = take a (drop i s) @ s ! (i + a) # take b (drop (Suc (i + a)) s)"
proof -
  assume lt: "i + a < length s"
  have "take (a + Suc b) (drop i s) = take a (drop i s) @ take (Suc b) (drop a (drop i s))"
    by (rule take_add)
  also have "drop a (drop i s) = drop (i + a) s" by (simp add: add.commute)
  also from lt have "drop (i + a) s = s ! (i + a) # drop (Suc (i + a)) s"
    by (simp add: Cons_nth_drop_Suc)
  finally show ?thesis by simp
qed

lemma rmatch_name_re:
  assumes "(j, g) \<in> set (rmatch name_re s (i, g0))"
  shows "g = g0 \<and> i < j \<and> j \<le> length s \<and> is_call_name (take (j - i) (drop i s))"
proof -
  from assms obtain y where y: "y \<in> set (rmatch (Plus Word) s (i, g0))"
    and opt: "(j, g) \<in> set (rmatch (Opt (Seq (ch (CHR ''.'')) (Plus Word))) s y)"
    unfolding name_re_def rmatch_Seq_mem by blast
  obtain j1 g1 where yy: "y = (j1, g1)" by (cases y)
  from y have "(j1, g1) \<in> set (rmatch (Plus Word) s (i, g0))" by (simp only: yy)
  then obtain n1 where n1: "1 \<le> n1" "n1 \<le> run_len Word s i" and "g1 = g0" "j1 = i + n1"
    unfolding rmatch_Plus_mem by blast
  with yy have y': "y = (i + n1, g0)" by simp
  from run_len_pos [OF n1] run_len_take [OF n1(2)]
  have w1: "i + n1 \<le> length s" "list_all is_word_char (take n1 (drop i s))"
    by (simp_all add: list_all_iff)
  from n1 w1 have ne1: "take n1 (drop i s) \<noteq> []" by auto
  from opt y' consider (plain) "j = i + n1" "g = g0"
    | (dotted) "(j, g) \<in> set (rmatch (Seq (ch (CHR ''.'')) (Plus Word)) s (i + n1, g0))"
    unfolding rmatch_Opt_mem by auto
  then show ?thesis
  proof cases
    case plain
    with n1 w1 ne1 show ?thesis by (simp add: is_call_name_plain)
  next
    case dotted
    then obtain z where z: "z \<in> set (rmatch (ch (CHR ''.'')) s (i + n1, g0))"
      and p2: "(j, g) \<in> set (rmatch (Plus Word) s z)"
      unfolding rmatch_Seq_mem by blast
    obtain j2 g2 where zz: "z = (j2, g2)" by (cases z)
    from z have "(j2, g2) \<in> set (rmatch (ch (CHR ''.'')) s (i + n1, g0))" by (simp only: zz)
    then have dot: "i + n1 < length s" "s ! (i + n1) = CHR ''.''" and "g2 = g0" "j2 = Suc (i + n1)"
      unfolding rmatch_ch_mem by blast+
    with zz have z': "z = (Suc (i + n1), g0)" by simp
    from p2 have "(j, g) \<in> set (rmatch (Plus Word) s (Suc (i + n1), g0))" by (simp only: z')
    then obtain n2 where n2: "1 \<le> n2" "n2 \<le> run_len Word s (Suc (i + n1))"
      and j: "j = Suc (i + n1) + n2" "g = g0"
      unfolding rmatch_Plus_mem by blast
    from run_len_pos [OF n2] run_len_take [OF n2(2)]
    have w2: "Suc (i + n1) + n2 \<le> length s"
        "list_all is_word_char (take n2 (drop (Suc (i + n1)) s))"
      by (simp_all add: list_all_iff)
    from n2 w2 have ne2: "take n2 (drop (Suc (i + n1)) s) \<noteq> []" by auto
    from j have "j - i = n1 + Suc n2" by simp
    with take_three [OF dot(1), of n2] dot(2)
    have "take (j - i) (drop i s)
        = take n1 (drop i s) @ CHR ''.'' # take n2 (drop (Suc (i + n1)) s)"
      by simp
    with is_call_name_dotted [OF ne1 w1(2) ne2 w2(2)] j w2 n1 show ?thesis by simp
  qed
qed


lemma rmatch_call_pattern:
  assumes "(j, g) \<in> set (rmatch call_pattern s (i, []))"
  shows "\<exists>e. g = [(1, i, e)] \<and> i < e \<and> e < j \<and> j \<le> length s
           \<and> is_call_name (take (e - i) (drop i s))
           \<and> s ! (j - 1) = CHR 0x28
           \<and> list_all is_space_char (take (j - 1 - e) (drop e s))"
proof -
  from assms obtain y where y: "y \<in> set (rmatch (Grp 1 name_re) s (i, []))"
    and rest: "(j, g) \<in> set (rmatch (Seq (Star Space) (ch (CHR 0x28))) s y)"
    unfolding call_pattern_def seqs.simps rmatch_Seq_mem by blast
  obtain e g1 where yy: "y = (e, g1)" by (cases y)
  from y have "(e, g1) \<in> set (rmatch (Grp 1 name_re) s (i, []))" by (simp only: yy)
  then obtain g' where nm: "(e, g') \<in> set (rmatch name_re s (i, []))" and g1: "g1 = (1, i, e) # g'"
    unfolding rmatch_Grp_mem by blast
  from rmatch_name_re [OF nm]
  have name: "g' = []" "i < e" "e \<le> length s" "is_call_name (take (e - i) (drop i s))"
    by simp_all
  from rest obtain z where z: "z \<in> set (rmatch (Star Space) s (e, g1))"
    and paren: "(j, g) \<in> set (rmatch (ch (CHR 0x28)) s z)"
    unfolding rmatch_Seq_mem yy by blast
  obtain k g2 where zz: "z = (k, g2)" by (cases z)
  from z have "(k, g2) \<in> set (rmatch (Star Space) s (e, g1))" by (simp only: zz)
  then obtain n where n: "n \<le> run_len Space s e" and "g2 = g1" "k = e + n"
    unfolding rmatch_Star_mem by blast
  with zz have z': "z = (e + n, g1)" by simp
  from paren have "(j, g) \<in> set (rmatch (ch (CHR 0x28)) s (e + n, g1))" by (simp only: z')
  then have p: "g = g1" "e + n < length s" "s ! (e + n) = CHR 0x28" "j = Suc (e + n)"
    unfolding rmatch_ch_mem by blast+
  from run_len_take [OF n] have "list_all is_space_char (take n (drop e s))"
    by (simp add: list_all_iff)
  with p g1 name show ?thesis by simp
qed

lemma re_search_from_mem:
  "re_search_from r s i = Some m \<Longrightarrow> (m_end m, m_groups m) \<in> set (rmatch r s (m_start m, []))"
proof (induction r s i rule: re_search_from.induct)
  case (1 r s i)
  note unfold = re_search_from.simps [of r s i]
  show ?case
  proof (cases "length s < i")
    case True
    with "1.prems" unfold show ?thesis by simp
  next
    case False
    note in_range = this
    show ?thesis
    proof (cases "rmatch r s (i, [])")
      case Nil
      with in_range "1.prems" unfold have "re_search_from r s (Suc i) = Some m" by simp
      from "1.IH" [OF in_range Nil this] show ?thesis .
    next
      case (Cons st sts)
      with in_range "1.prems" unfold
      have "m = \<lparr>m_start = i, m_end = fst st, m_groups = snd st\<rparr>" by simp
      with Cons show ?thesis by simp
    qed
  qed
qed

lemma re_finditer_from_mem:
  "m \<in> set (re_finditer_from r s i) \<Longrightarrow>
   (m_end m, m_groups m) \<in> set (rmatch r s (m_start m, []))"
proof (induction r s i rule: re_finditer_from.induct)
  case (1 r s i)
  note unfold = re_finditer_from.simps [of r s i]
  show ?case
  proof (cases "re_search_from r s i")
    case None
    with "1.prems" unfold show ?thesis by simp
  next
    case (Some m')
    with "1.prems" unfold
    have "m = m' \<or> m \<in> set (re_finditer_from r s (max (m_end m') (Suc (m_start m'))))"
      by simp
    then show ?thesis
    proof
      assume "m = m'"
      with Some show ?thesis by (simp add: re_search_from_mem)
    next
      assume "m \<in> set (re_finditer_from r s (max (m_end m') (Suc (m_start m'))))"
      from "1.IH" [OF Some this] show ?thesis .
    qed
  qed
qed

lemma split_at_match:
  assumes "i \<le> e" and "e \<le> k" and "k < length s"
  shows "s = take i s @ take (e - i) (drop i s) @ take (k - e) (drop e s) @ s ! k # drop (Suc k) s"
proof -
  from assms have a: "drop (e - i) (drop i s) = drop e s" by simp
  from assms have b: "drop (k - e) (drop e s) = drop k s" by simp
  from assms have c: "drop k s = s ! k # drop (Suc k) s" by (simp add: Cons_nth_drop_Suc)
  have "s = take i s @ drop i s" by (rule append_take_drop_id [symmetric])
  also have "drop i s = take (e - i) (drop i s) @ drop (e - i) (drop i s)"
    by (rule append_take_drop_id [symmetric])
  also note a
  also have "drop e s = take (k - e) (drop e s) @ drop (k - e) (drop e s)"
    by (rule append_take_drop_id [symmetric])
  also note b
  also note c
  finally show ?thesis .
qed

lemma call_match_shape:
  assumes "m \<in> set (re_finditer call_pattern s)"
  shows "is_call_name (group1 s m)
    \<and> (\<exists>pre ws post. s = pre @ group1 s m @ ws @ CHR 0x28 # post \<and> list_all is_space_char ws)"
proof -
  from assms have "(m_end m, m_groups m) \<in> set (rmatch call_pattern s (m_start m, []))"
    unfolding re_finditer_def by (rule re_finditer_from_mem)
  from rmatch_call_pattern [OF this]
  obtain e where g: "m_groups m = [(1, m_start m, e)]" and o: "m_start m < e" "e < m_end m"
      "m_end m \<le> length s"
    and nm: "is_call_name (take (e - m_start m) (drop (m_start m) s))"
    and p: "s ! (m_end m - 1) = CHR 0x28"
    and ws: "list_all is_space_char (take (m_end m - 1 - e) (drop e s))"
    by blast
  from g have g1: "group1 s m = take (e - m_start m) (drop (m_start m) s)"
    by (simp add: group1_def group_def)
  from o have "m_start m \<le> e" "e \<le> m_end m - 1" "m_end m - 1 < length s" by simp_all
  from split_at_match [OF this] p g1
  have "s = take (m_start m) s @ group1 s m @ take (m_end m - 1 - e) (drop e s)
          @ CHR 0x28 # drop (Suc (m_end m - 1)) s"
    by simp
  with ws nm g1 show ?thesis by metis
qed

section \<open>The call extractor\<close>

text \<open>
  C8 (amended).  The call extractor returns, in the order of their occurrence, the names
  of all matches of the call pattern in the text of the span (its lines joined by
  newlines), except the names \<^verbatim>\<open>function\<close>, \<^verbatim>\<open>if\<close>, \<^verbatim>\<open>for\<close> and \<^verbatim>\<open>while\<close>:
  comment lines and string literals are searched like any other text.  Every name it
  returns is a plain or dotted name that stands in the span text, followed by optional
  whitespace and an opening parenthesis.
\<close>

theorem calls_are_all_matches:
  "find_function_calls self function_name
     = (case find_start self function_name of
          None \<Rightarrow> []
        | Some start_pos \<Rightarrow>
            filter (\<lambda>func_name. func_name \<notin> set [''function'', ''if'', ''for'', ''while''])
              (map (group1 (span_text self start_pos))
                 (re_finditer call_pattern (span_text self start_pos))))
   \<and> (name \<in> set (find_function_calls self function_name) \<longrightarrow>
        name \<notin> set [''function'', ''if'', ''for'', ''while'']
        \<and> is_call_name name
        \<and> (\<exists>start_pos pre ws post.
              find_start self function_name = Some start_pos
              \<and> span_text self start_pos = pre @ name @ ws @ CHR 0x28 # post
              \<and> list_all is_space_char ws))"
proof (intro conjI impI)
  show "find_function_calls self function_name
     = (case find_start self function_name of
          None \<Rightarrow> []
        | Some start_pos \<Rightarrow>
            filter (\<lambda>func_name. func_name \<notin> set [''function'', ''if'', ''for'', ''while''])
              (map (group1 (span_text self start_pos))
                 (re_finditer call_pattern (span_text self start_pos))))"
    by (simp add: find_function_calls_def span_text_def Let_def split: option.split)
next
  assume a: "name \<in> set (find_function_calls self function_name)"
  then obtain start_pos where sp: "find_start self function_name = Some start_pos"
    by (cases "find_start self function_name") (auto simp: find_function_calls_def)
  with a obtain m where m: "m \<in> set (re_finditer call_pattern (span_text self start_pos))"
    and n: "name = group1 (span_text self start_pos) m"
    and k: "name \<notin> set [''function'', ''if'', ''for'', ''while'']"
    by (auto simp: find_function_calls_def span_text_def Let_def)
  from call_match_shape [OF m] n sp
  have "is_call_name name
    \<and> (\<exists>start_pos pre ws post.
              find_start self function_name = Some start_pos
              \<and> span_text self start_pos = pre @ name @ ws @ CHR 0x28 # post
              \<and> list_all is_space_char ws)"
    by blast
  with k show "name \<notin> set [''function'', ''if'', ''for'', ''while'']" 
    and "is_call_name name"
    and "\<exists>start_pos pre ws post.
              find_start self function_name = Some start_pos
              \<and> span_text self start_pos = pre @ name @ ws @ CHR 0x28 # post
              \<and> list_all is_space_char ws"
    by blast+
qed

text \<open>A call on a comment line of the body of \<open>f\<close> is returned.\<close>

theorem calls_are_all_matches_witness:
  "''g'' \<in> set (find_function_calls
     (LuaParser_init (''function f()'' @ [CHR 0x0A] @ ''-- g()'' @ [CHR 0x0A] @ ''end'')) ''f'')
   \<and> ''g'' \<notin> set [''function'', ''if'', ''for'', ''while'']
   \<and> is_call_name ''g''"
proof -
  let ?p = "LuaParser_init (''function f()'' @ [CHR 0x0A] @ ''-- g()'' @ [CHR 0x0A] @ ''end'')"
  have h: "''g'' \<in> set (find_function_calls ?p ''f'')" by code_simp
  from calls_are_all_matches [of ?p "''f''" "''g''", THEN conjunct2, THEN mp, OF h] h
  show ?thesis by blast
qed

text \<open>
  C8 as stated fails: the body of \<open>f\<close> has a call on a comment line and a call inside a
  string literal, and both names are returned (with \<open>f\<close> itself, from the definition
  line).
\<close>

theorem calls_in_comments_and_strings_counterexample:
  "find_function_calls
     (LuaParser_init (''function f()'' @ [CHR 0x0A] @ ''-- g()'' @ [CHR 0x0A]
        @ ''  s = '' @ [CHR 0x22] @ ''h()'' @ [CHR 0x22] @ [CHR 0x0A] @ ''end'')) ''f''
     = [''f'', ''g'', ''h'']
   \<and> is_in_comment
     (LuaParser_init (''function f()'' @ [CHR 0x0A] @ ''-- g()'' @ [CHR 0x0A]
        @ ''  s = '' @ [CHR 0x22] @ ''h()'' @ [CHR 0x22] @ [CHR 0x0A] @ ''end'')) 1 0
   \<and> is_in_string (''  s = '' @ [CHR 0x22] @ ''h()'' @ [CHR 0x22]) 7"
  by code_simp

section \<open>The loops compute the closed forms\<close>
























section \<open>The event-handler state machine\<close>






section \<open>Checking is keyed by function name\<close>



section \<open>One diagnostic for each access\<close>






end
